theory Spec2Isabelle
  imports Main "HOL-Library.Word"
begin

section \<open>Data model\<close>

text \<open>
  A Python \<open>str\<close> is a sequence of Unicode code points, so slicing and \<open>len\<close> count
  code points. Literals of the source are written with \<open>lit\<close>. \<open>bytes\<close> are lists of
  octets.
\<close>

type_synonym str = "nat list"

type_synonym bytes = "8 word list"

definition lit :: "string \<Rightarrow> str" where
  "lit s = map of_char s"

text \<open>
  Decoded JSON values. A listing item is the \<open>dict\<close> the JSON decoder returns for one
  entry of \<open>_embedded.items\<close>; \<open>dict_get\<close> is \<open>dict.get(key)\<close>, with \<open>None\<close> for a
  missing key.
\<close>

datatype json = JNull | JBool bool | JNum int | JStr str
  | JArr "json list" | JObj "(str \<times> json) list"

type_synonym item = "(str \<times> json) list"

definition dict_get :: "item \<Rightarrow> str \<Rightarrow> json option" where
  "dict_get d k = map_of d k"

text \<open>
  What the HTTP client is given (\<open>requests.get(url, headers=..., params=...)\<close>,
  \<open>session.get(url, headers=...)\<close>) and what it hands back. Of the decoded JSON body
  only the keys the program reads are kept: \<open>embedded\<close> is \<open>None\<close> when the key
  \<open>_embedded\<close> is absent, \<open>Some None\<close> when it is present without \<open>items\<close>;
  \<open>href\<close> is \<open>None\<close> when the key \<open>href\<close> is absent. \<open>content\<close> is the raw body.
  The body of an answer with status 200 is taken to be a JSON object of the shape the
  service documents: an object with a list of objects under \<open>_embedded.items\<close>, or an
  object with a string under \<open>href\<close>.
\<close>

record request =
  url :: str
  headers :: "(str \<times> str) list"
  params :: "(str \<times> int) list"

record response =
  status_code :: int
  embedded :: "item list option option"
  href :: "str option"
  content :: bytes

text \<open>
  The exceptions. Every failure of the HTTP client itself (connection, timeout,
  undecodable body) is \<open>Transport_error\<close>. The others are raised by the standard
  library while it writes an archive: \<open>IndexError\<close> for an entry without a name,
  \<open>struct.error\<close> for a header field that does not fit its width, and
  \<open>FileNotFoundError\<close> for a file that is not there.
\<close>

datatype error = Transport_error | IndexError | Struct_error | FileNotFoundError

type_synonym http = "request \<Rightarrow> error + response"

text \<open>
  The mutable world: the process-wide cache (key to value and expiry instant), the
  clock in seconds, and the log of requests handed to the HTTP client, oldest first.
  An entry is live while the clock is before its expiry. The clock belongs to the
  environment: the program reads it when it stores an entry and never sets it. What
  the program prints is not part of the world.
\<close>

record world =
  cache :: "str \<rightharpoonup> item list \<times> nat"
  now :: nat
  log :: "request list"

definition cache_get :: "world \<Rightarrow> str \<Rightarrow> item list option" where
  "cache_get w k =
     (case cache w k of
        None \<Rightarrow> None
      | Some (v, expires) \<Rightarrow> if now w < expires then Some v else None)"

definition cache_set :: "world \<Rightarrow> str \<Rightarrow> item list \<Rightarrow> nat \<Rightarrow> world" where
  "cache_set w k v timeout = w\<lparr>cache := (cache w)(k \<mapsto> (v, now w + timeout))\<rparr>"

definition send :: "http \<Rightarrow> request \<Rightarrow> world \<Rightarrow> (error + response) \<times> world" where
  "send net req w = (net req, w\<lparr>log := log w @ [req]\<rparr>)"

text \<open>The world of a process that has just started: nothing cached, nothing sent.\<close>

definition fresh_world :: world where
  "fresh_world = \<lparr>cache = Map.empty, now = 0, log = []\<rparr>"

section \<open>Constants and library functions\<close>

definition YANDEX_DISK_API_URL :: str where
  "YANDEX_DISK_API_URL = lit ''https://cloud-api.yandex.net/v1/disk/public/resources''"

definition auth_headers :: "str \<Rightarrow> (str \<times> str) list" where
  "auth_headers token = [(lit ''Authorization'', lit ''OAuth '' @ token)]"

text \<open>
  \<open>urllib.parse.quote_plus\<close> of the standard library, on text: the string is encoded
  as UTF-8, a space becomes \<open>+\<close>, the octets of letters, digits and \<open>_.-~\<close> stay, and
  every other octet becomes \<open>%XX\<close> in upper-case hexadecimal. Keys and paths are
  text, that is, sequences of Unicode scalar values; on a number that is none (a lone
  surrogate, which Python refuses to encode) \<open>utf8\<close> is of no interest.
\<close>

definition utf8 :: "nat \<Rightarrow> nat list" where
  "utf8 c =
     (if c < 128 then [c]
      else if c < 2048 then [192 + c div 64, 128 + c mod 64]
      else if c < 65536 then [224 + c div 4096, 128 + c div 64 mod 64, 128 + c mod 64]
      else [240 + c div 262144, 128 + c div 4096 mod 64, 128 + c div 64 mod 64,
            128 + c mod 64])"

definition always_safe :: "nat \<Rightarrow> bool" where
  "always_safe b \<longleftrightarrow>
     (65 \<le> b \<and> b \<le> 90) \<or> (97 \<le> b \<and> b \<le> 122) \<or> (48 \<le> b \<and> b \<le> 57) \<or>
     b = 95 \<or> b = 46 \<or> b = 45 \<or> b = 126"

definition hex_digit :: "nat \<Rightarrow> nat" where
  "hex_digit d = (if d < 10 then 48 + d else 55 + d)"

definition quote_octet :: "nat \<Rightarrow> str" where
  "quote_octet b = (if always_safe b then [b] else [37, hex_digit (b div 16), hex_digit (b mod 16)])"

definition quote_plus :: "str \<Rightarrow> str" where
  "quote_plus s = concat (map (\<lambda>c. if c = 32 then [43] else concat (map quote_octet (utf8 c))) s)"

section \<open>Download-link resolvers\<close>

text \<open>
  The secret \<open>settings.YANDEX_DISK_TOKEN\<close> is the parameter \<open>token\<close> of every function
  that sends it. The blocking resolver rebinds its two arguments before it builds the
  URL; the non-blocking one builds the URL from them as they are.
\<close>

definition get_download_link :: "http \<Rightarrow> str \<Rightarrow> str \<Rightarrow> str \<Rightarrow> world \<Rightarrow> (error + str) \<times> world" where
  "get_download_link net token public_key file_path w =
     (let public_key' = public_key @ lit ''//'' @ take 31 file_path;
          file_path' = drop 31 file_path;
          encoded_file_path = quote_plus file_path';
          url = YANDEX_DISK_API_URL @ lit ''/download?public_key='' @ public_key'
                  @ lit ''&path='' @ encoded_file_path;
          (res, w') = send net \<lparr>url = url, headers = auth_headers token, params = []\<rparr> w
      in case res of
           Inl e \<Rightarrow> (Inl e, w')
         | Inr r \<Rightarrow>
             if status_code r = 200 then (Inr (case href r of Some h \<Rightarrow> h | None \<Rightarrow> []), w')
             else (Inr [], w'))"

definition get_download_link_async :: "http \<Rightarrow> str \<Rightarrow> str \<Rightarrow> str \<Rightarrow> world \<Rightarrow> (error + str) \<times> world" where
  "get_download_link_async net token public_key file_path w =
     (let download_url = YANDEX_DISK_API_URL @ lit ''/download?public_key='' @ public_key
                           @ lit ''&path='' @ file_path;
          (res, w') = send net \<lparr>url = download_url, headers = auth_headers token, params = []\<rparr> w
      in case res of
           Inl e \<Rightarrow> (Inl e, w')
         | Inr r \<Rightarrow>
             if status_code r = 200 then (Inr (case href r of Some h \<Rightarrow> h | None \<Rightarrow> []), w')
             else (Inr [], w'))"

section \<open>Remote listing client\<close>

text \<open>
  \<open>str(media_type)\<close> inside the f-string of the cache key: \<open>None\<close> prints as the
  four letters \<open>None\<close>.
\<close>

definition format_media_type :: "str option \<Rightarrow> str" where
  "format_media_type media_type = (case media_type of None \<Rightarrow> lit ''None'' | Some m \<Rightarrow> m)"

definition cache_key_of :: "str \<Rightarrow> str option \<Rightarrow> str" where
  "cache_key_of public_key media_type =
     lit ''files_'' @ public_key @ lit ''_'' @ format_media_type media_type"

text \<open>
  The test \<open>media_type and item.get('media_type') != media_type\<close>: the filter is
  truthy when it is a non-empty string, and a value differs from the filter string
  unless it is that very string.
\<close>

definition skipped :: "str option \<Rightarrow> item \<Rightarrow> bool" where
  "skipped media_type item =
     (case media_type of
        None \<Rightarrow> False
      | Some m \<Rightarrow> m \<noteq> [] \<and> dict_get item (lit ''media_type'') \<noteq> Some (JStr m))"

text \<open>The inner \<open>for item in items\<close> loop, appending to \<open>files\<close>.\<close>

fun append_items :: "str option \<Rightarrow> item list \<Rightarrow> item list \<Rightarrow> item list" where
  "append_items media_type [] files = files"
| "append_items media_type (item # items) files =
     (if skipped media_type item then append_items media_type items files
      else append_items media_type items (files @ [item]))"

text \<open>\<open>data.get('_embedded', {}).get('items', [])\<close>.\<close>

definition items_of :: "response \<Rightarrow> item list" where
  "items_of r =
     (case embedded r of
        None \<Rightarrow> []
      | Some emb \<Rightarrow> (case emb of None \<Rightarrow> [] | Some items \<Rightarrow> items))"

definition page_request :: "str \<Rightarrow> str \<Rightarrow> int \<Rightarrow> int \<Rightarrow> request" where
  "page_request token public_key limit offset =
     \<lparr>url = YANDEX_DISK_API_URL @ lit ''?public_key='' @ public_key,
      headers = auth_headers token,
      params = [(lit ''limit'', limit), (lit ''offset'', offset)]\<rparr>"

text \<open>
  The \<open>while True\<close> loop. It has no bound of its own: against a server that never
  sends an empty page it does not return, which is the value \<open>None\<close>.
\<close>

partial_function (option) paginate ::
  "http \<Rightarrow> str \<Rightarrow> str \<Rightarrow> str option \<Rightarrow> item list \<Rightarrow> int \<Rightarrow> world
     \<Rightarrow> ((error + item list) \<times> world) option" where
  "paginate net token public_key media_type files offset w =
     (let limit = 50;
          (res, w') = send net (page_request token public_key limit offset) w
      in case res of
           Inl e \<Rightarrow> Some (Inl e, w')
         | Inr r \<Rightarrow>
             if status_code r = 200 then
               (let items = items_of r
                in if items = [] then Some (Inr files, w')
                   else paginate net token public_key media_type
                          (append_items media_type items files) (offset + limit) w')
             else Some (Inr files, w'))"

definition get_files_from_public_link ::
  "http \<Rightarrow> str \<Rightarrow> str \<Rightarrow> str option \<Rightarrow> world \<Rightarrow> ((error + item list) \<times> world) option" where
  "get_files_from_public_link net token public_key media_type w =
     (let cache_key = cache_key_of public_key media_type
      in case cache_get w cache_key of
           Some cached_files \<Rightarrow> Some (Inr cached_files, w)
         | None \<Rightarrow>
             (case paginate net token public_key media_type [] 0 w of
                None \<Rightarrow> None
              | Some (Inl e, w') \<Rightarrow> Some (Inl e, w')
              | Some (Inr files, w') \<Rightarrow> Some (Inr files, cache_set w' cache_key files 3600)))"

section \<open>Archive builders\<close>

text \<open>
  A \<open>zipfile.ZipFile\<close> opened for writing on a \<open>BytesIO\<close>: the archive is the list of
  its entries (name and uncompressed content) in the order they were written; a name
  written twice is two entries. Of the buffer's position only whether it is zero is
  kept: closing the archive leaves it behind the data, \<open>seek(0)\<close> puts it at the start.
\<close>

type_synonym zip_entries = "(str \<times> bytes) list"

datatype position = At_start | Behind_data

record bytes_io =
  entries :: zip_entries
  pos :: position

text \<open>
  What \<open>zipfile\<close> does with the name of an entry. \<open>ZipInfo.__init__\<close> ends the name
  before its first NUL character. The header holds the length of the encoded name
  (ASCII when the name is ASCII, UTF-8 otherwise: the same octets as \<open>utf8\<close> gives) in
  16 bits, and \<open>struct.pack\<close> raises beyond 65535. \<open>writestr\<close> reads the last
  character of the name before it writes, which raises on the empty name.
\<close>

definition zip_name :: "str \<Rightarrow> str" where
  "zip_name filename = takeWhile (\<lambda>c. c \<noteq> 0) filename"

definition encoded_length :: "str \<Rightarrow> nat" where
  "encoded_length filename = length (concat (map utf8 filename))"

definition add_entry :: "zip_entries \<Rightarrow> str \<Rightarrow> bytes \<Rightarrow> error + zip_entries" where
  "add_entry zip_file filename data =
     (if 65535 < encoded_length filename then Inl Struct_error
      else Inr (zip_file @ [(filename, data)]))"

definition writestr :: "zip_entries \<Rightarrow> str \<Rightarrow> bytes \<Rightarrow> error + zip_entries" where
  "writestr zip_file arcname data =
     (let filename = zip_name arcname
      in if filename = [] then Inl IndexError else add_entry zip_file filename data)"

definition close_zip :: "zip_entries \<Rightarrow> bytes_io" where
  "close_zip zip_file = \<lparr>entries = zip_file, pos = Behind_data\<rparr>"

definition seek0 :: "bytes_io \<Rightarrow> bytes_io" where
  "seek0 zip_buffer = zip_buffer\<lparr>pos := At_start\<rparr>"

text \<open>
  The \<open>for file_path in file_paths\<close> loop of \<open>create_zip_archive_from_yandex\<close>. The
  awaits run one after the other; an exception of the HTTP client or of \<open>writestr\<close>
  leaves the loop and the function.
\<close>

fun fetch_into_zip ::
  "http \<Rightarrow> str \<Rightarrow> str \<Rightarrow> str list \<Rightarrow> zip_entries \<Rightarrow> world \<Rightarrow> (error + zip_entries) \<times> world" where
  "fetch_into_zip net token public_key [] zip_file w = (Inr zip_file, w)"
| "fetch_into_zip net token public_key (file_path # file_paths) zip_file w =
     (case get_download_link_async net token public_key file_path w of
        (Inl e, w1) \<Rightarrow> (Inl e, w1)
      | (Inr download_url, w1) \<Rightarrow>
          if download_url \<noteq> [] then
            (case send net \<lparr>url = download_url, headers = [], params = []\<rparr> w1 of
               (Inl e, w2) \<Rightarrow> (Inl e, w2)
             | (Inr r, w2) \<Rightarrow>
                 if status_code r = 200 then
                   (case writestr zip_file file_path (content r) of
                      Inl e \<Rightarrow> (Inl e, w2)
                    | Inr zip_file' \<Rightarrow>
                        fetch_into_zip net token public_key file_paths zip_file' w2)
                 else fetch_into_zip net token public_key file_paths zip_file w2)
          else fetch_into_zip net token public_key file_paths zip_file w1)"

definition create_zip_archive_from_yandex ::
  "http \<Rightarrow> str \<Rightarrow> str \<Rightarrow> str list \<Rightarrow> world \<Rightarrow> (error + bytes_io) \<times> world" where
  "create_zip_archive_from_yandex net token public_key file_paths w =
     (case fetch_into_zip net token public_key file_paths [] w of
        (Inl e, w') \<Rightarrow> (Inl e, w')
      | (Inr zip_file, w') \<Rightarrow> (Inr (seek0 (close_zip zip_file)), w'))"











section \<open>The multi-file download view\<close>

text \<open>
  Of the inbound request the view reads \<open>request.method\<close> and the form fields
  (\<open>request.POST.getlist('files')\<close>: every value posted under the name, in order).
\<close>

record http_request =
  request_method :: str
  POST :: "(str \<times> str) list"

datatype body = Text str | Archive zip_entries

record http_response =
  status :: int
  body :: body
  content_type :: str
  extra_headers :: "(str \<times> str) list"

definition getlist :: "(str \<times> str) list \<Rightarrow> str \<Rightarrow> str list" where
  "getlist form k = map snd (filter (\<lambda>kv. fst kv = k) form)"

definition HttpResponse :: "str \<Rightarrow> int \<Rightarrow> http_response" where
  "HttpResponse text st =
     \<lparr>status = st, body = Text text, content_type = lit ''text/html; charset=utf-8'',
      extra_headers = []\<rparr>"

definition no_files_message :: str where
  "no_files_message =
     [1054, 1096, 1080, 1073, 1082, 1072, 58, 32, 1053, 1077, 32, 1074, 1099, 1073, 1088,
      1072, 1085, 1099, 32, 1092, 1072, 1081, 1083, 1099, 32, 1076, 1083, 1103, 32, 1089,
      1082, 1072, 1095, 1080, 1074, 1072, 1085, 1080, 1103, 46]"

definition bad_method_message :: str where
  "bad_method_message =
     [1052, 1077, 1090, 1086, 1076, 32, 1085, 1077, 32, 1087, 1086, 1076, 1076, 1077, 1088,
      1078, 1080, 1074, 1072, 1077, 1090, 1089, 1103, 46]"

definition download_multiple_files ::
  "http \<Rightarrow> str \<Rightarrow> http_request \<Rightarrow> str \<Rightarrow> world \<Rightarrow> (error + http_response) \<times> world" where
  "download_multiple_files net token request public_key w =
     (if request_method request = lit ''POST'' then
        (let files_to_download = getlist (POST request) (lit ''files'')
         in if files_to_download = [] then (Inr (HttpResponse no_files_message 400), w)
            else
              (case create_zip_archive_from_yandex net token public_key files_to_download w of
                 (Inl e, w') \<Rightarrow> (Inl e, w')
               | (Inr zip_buffer, w') \<Rightarrow>
                   (Inr \<lparr>status = 200, body = Archive (entries zip_buffer),
                         content_type = lit ''application/zip'',
                         extra_headers =
                           [(lit ''Content-Disposition'',
                             lit ''attachment; filename='' @ [34] @ lit ''files.zip'' @ [34])]\<rparr>,
                    w')))
      else (Inr (HttpResponse bad_method_message 405), w))"

section \<open>Vocabulary of the statements\<close>

text \<open>
  The \<open>j\<close>-th page request of a listing (limit 50, offset \<open>50 * j\<close>) and the server's
  answer to it. A page is full when it is a success response with at least one item:
  exactly then the loop goes on to the next page.
\<close>

definition nth_request :: "str \<Rightarrow> str \<Rightarrow> nat \<Rightarrow> request" where
  "nth_request token public_key j = page_request token public_key 50 (50 * int j)"

definition page :: "http \<Rightarrow> str \<Rightarrow> str \<Rightarrow> nat \<Rightarrow> error + response" where
  "page net token public_key j = net (nth_request token public_key j)"

definition full_page :: "http \<Rightarrow> str \<Rightarrow> str \<Rightarrow> nat \<Rightarrow> bool" where
  "full_page net token public_key j =
     (case page net token public_key j of
        Inl e \<Rightarrow> False
      | Inr r \<Rightarrow> status_code r = 200 \<and> items_of r \<noteq> [])"

definition page_items :: "http \<Rightarrow> str \<Rightarrow> str \<Rightarrow> nat \<Rightarrow> item list" where
  "page_items net token public_key j =
     (case page net token public_key j of Inl e \<Rightarrow> [] | Inr r \<Rightarrow> items_of r)"

text \<open>
  The two ways a listing ends without an exception: a success response without items,
  and a response whose status is not 200.
\<close>

definition empty_page :: "http \<Rightarrow> str \<Rightarrow> str \<Rightarrow> nat \<Rightarrow> bool" where
  "empty_page net token public_key j =
     (case page net token public_key j of
        Inl e \<Rightarrow> False
      | Inr r \<Rightarrow> status_code r = 200 \<and> items_of r = [])"

definition refused_page :: "http \<Rightarrow> str \<Rightarrow> str \<Rightarrow> nat \<Rightarrow> bool" where
  "refused_page net token public_key j =
     (case page net token public_key j of
        Inl e \<Rightarrow> False
      | Inr r \<Rightarrow> status_code r \<noteq> 200)"

definition pages_items :: "http \<Rightarrow> str \<Rightarrow> str \<Rightarrow> nat \<Rightarrow> nat \<Rightarrow> item list" where
  "pages_items net token public_key i k =
     concat (map (page_items net token public_key) [i..<i + k])"

definition kept :: "str option \<Rightarrow> item list \<Rightarrow> item list" where
  "kept media_type items = filter (\<lambda>item. \<not> skipped media_type item) items"

definition logged :: "world \<Rightarrow> request list \<Rightarrow> world" where
  "logged w reqs = w\<lparr>log := log w @ reqs\<rparr>"

text \<open>
  The URL each resolver hands to the HTTP client, and the request around it.
\<close>

definition blocking_url :: "str \<Rightarrow> str \<Rightarrow> str" where
  "blocking_url public_key file_path =
     YANDEX_DISK_API_URL @ lit ''/download?public_key='' @ (public_key @ lit ''//'' @ take 31 file_path)
       @ lit ''&path='' @ quote_plus (drop 31 file_path)"

definition async_url :: "str \<Rightarrow> str \<Rightarrow> str" where
  "async_url public_key file_path =
     YANDEX_DISK_API_URL @ lit ''/download?public_key='' @ public_key @ lit ''&path='' @ file_path"

definition link_request :: "str \<Rightarrow> str \<Rightarrow> request" where
  "link_request token u = \<lparr>url = u, headers = auth_headers token, params = []\<rparr>"

text \<open>
  For the archive builder: the request for a file's bytes; what the non-blocking
  resolver returns for a path (it does not depend on the world it starts in); the
  bytes fetched for a path, if any; whether a path has no name an entry can carry;
  whether handling a path ends in an exception, of the HTTP client or of the archive
  writer; the requests sent for a path; and the archive entry a path yields.
\<close>

definition file_request :: "str \<Rightarrow> request" where
  "file_request download_url = \<lparr>url = download_url, headers = [], params = []\<rparr>"

definition resolved :: "http \<Rightarrow> str \<Rightarrow> str \<Rightarrow> str \<Rightarrow> error + str" where
  "resolved net token public_key file_path =
     fst (get_download_link_async net token public_key file_path fresh_world)"



definition fetched :: "http \<Rightarrow> str \<Rightarrow> str \<Rightarrow> str \<Rightarrow> bytes option" where
  "fetched net token public_key file_path =
     (case resolved net token public_key file_path of
        Inl e \<Rightarrow> None
      | Inr download_url \<Rightarrow>
          if download_url = [] then None
          else (case net (file_request download_url) of
                  Inl e \<Rightarrow> None
                | Inr r \<Rightarrow> if status_code r = 200 then Some (content r) else None))"


definition entry_of :: "http \<Rightarrow> str \<Rightarrow> str \<Rightarrow> str \<Rightarrow> (str \<times> bytes) option" where
  "entry_of net token public_key file_path =
     map_option (Pair (zip_name file_path)) (fetched net token public_key file_path)"




section \<open>Test doubles\<close>

text \<open>
  Stand-ins for the remote service, for the concrete runs below: a listing server that
  holds a fixed list of items and serves the window \<open>[offset, offset + limit)\<close> of it;
  a server that answers the \<open>j\<close>-th page request from a script and sends an empty page
  beyond it; and a server that answers by URL from a table, with status 404 for a URL
  it does not know.
\<close>

definition ok_page :: "item list \<Rightarrow> response" where
  "ok_page items = \<lparr>status_code = 200, embedded = Some (Some items), href = None, content = []\<rparr>"

definition failed_page :: "int \<Rightarrow> response" where
  "failed_page st = \<lparr>status_code = st, embedded = None, href = None, content = []\<rparr>"

definition link_page :: "str \<Rightarrow> response" where
  "link_page h = \<lparr>status_code = 200, embedded = None, href = Some h, content = []\<rparr>"


definition query_param :: "request \<Rightarrow> str \<Rightarrow> int" where
  "query_param req k = (case map_of (params req) k of None \<Rightarrow> 0 | Some v \<Rightarrow> v)"

definition fake_api :: "item list \<Rightarrow> http" where
  "fake_api all_items req =
     Inr (ok_page (take (nat (query_param req (lit ''limit'')))
                     (drop (nat (query_param req (lit ''offset''))) all_items)))"

definition scripted_api :: "(error + response) list \<Rightarrow> http" where
  "scripted_api script req =
     (let j = nat (query_param req (lit ''offset'') div 50)
      in if j < length script then script ! j else Inr (ok_page []))"

definition table_api :: "(str \<times> (error + response)) list \<Rightarrow> http" where
  "table_api table req =
     (case map_of table (url req) of None \<Rightarrow> Inr (failed_page 404) | Some res \<Rightarrow> res)"

definition numbered_item :: "nat \<Rightarrow> item" where
  "numbered_item n = [(lit ''name'', JNum (int n))]"

definition typed_item :: "str \<Rightarrow> str \<Rightarrow> item" where
  "typed_item name media_type = [(lit ''name'', JStr name), (lit ''media_type'', JStr media_type)]"

text \<open>
  Fixed inputs: 125 distinct items; a scripted listing of three pages whose second page
  is refused; two items of different media types; a file server that knows \<open>a.txt\<close>
  and \<open>c.txt\<close> but not \<open>b.txt\<close>, and a path with a NUL character in it; a file
  server that knows the empty path; a media root that holds \<open>a.txt\<close> and a directory
  \<open>sub\<close> with \<open>b.txt\<close> in it.
\<close>

definition sample_items :: "item list" where
  "sample_items = map numbered_item [0..<125]"

definition three_pages :: http where
  "three_pages =
     scripted_api [Inr (ok_page [numbered_item 1, numbered_item 2]), Inr (failed_page 500),
                   Inr (ok_page [numbered_item 3])]"

definition two_items :: "item list" where
  "two_items = [typed_item (lit ''a.png'') (lit ''image''), typed_item (lit ''b.mp4'') (lit ''video'')]"





section \<open>The pagination loop\<close>

text \<open>
  One turn of the loop on a full page, the last turn on any other answer, and their
  composition over \<open>k\<close> full pages. Conversely, a loop that returns has met a page
  that is not full: the loop returns exactly when the server stops sending full pages.
\<close>

lemma append_items_kept: "append_items mt items files = files @ kept mt items"
  by (induction items arbitrary: files) (auto simp: kept_def)

lemma kept_append: "kept mt (xs @ ys) = kept mt xs @ kept mt ys"
  by (simp add: kept_def)

lemma kept_None: "kept None items = items"
  by (simp add: kept_def skipped_def)

lemma kept_falsy: "kept (Some []) items = items"
  by (simp add: kept_def skipped_def)


lemma append_items_falsy: "append_items (Some []) items files = files @ items"
  by (simp add: append_items_kept kept_falsy)

lemma Suc_offset: "50 * int (Suc j) = 50 * int j + 50"
  by simp

lemma logged_logged: "logged (logged w xs) ys = logged w (xs @ ys)"
  by (simp add: logged_def)

lemma pages_items_Suc:
  "pages_items net token pk i (Suc k) = pages_items net token pk i k @ page_items net token pk (i + k)"
  by (simp add: pages_items_def)

lemma pages_items_1: "pages_items net token pk 0 (Suc 0) = page_items net token pk 0"
  by (simp add: pages_items_def)

lemma upt_2: "[0..<Suc (Suc 0)] = [0, Suc 0]"
  by (simp add: upt_rec)

lemma upt_4: "[0..<Suc 3] = [0, 1, 2, 3]"
  by (simp add: upt_rec)

lemma nth_request_eq:
  "nth_request token pk j =
     \<lparr>url = YANDEX_DISK_API_URL @ lit ''?public_key='' @ pk, headers = auth_headers token,
      params = [(lit ''limit'', 50), (lit ''offset'', 50 * int j)]\<rparr>"
  by (simp add: nth_request_def page_request_def)

lemma paginate_step:
  assumes "full_page net token pk j"
  shows "paginate net token pk mt files (50 * int j) w =
         paginate net token pk mt (files @ kept mt (page_items net token pk j))
           (50 * int (Suc j)) (logged w [nth_request token pk j])"
proof -
  from assms obtain r where r: "net (nth_request token pk j) = Inr r" "status_code r = 200"
      "items_of r \<noteq> []"
    by (auto simp: full_page_def page_def split: sum.splits)
  then have pi: "page_items net token pk j = items_of r"
    by (simp add: page_items_def page_def)
  show ?thesis
    apply (subst paginate.simps)
    apply (simp only: Let_def send_def Suc_offset)
    apply (simp add: r [unfolded nth_request_def] pi append_items_kept logged_def nth_request_def)
    done
qed

lemma paginate_stop:
  assumes "\<not> full_page net token pk j"
  shows "paginate net token pk mt files (50 * int j) w =
         Some (case page net token pk j of Inl e \<Rightarrow> Inl e | Inr r \<Rightarrow> Inr files,
               logged w [nth_request token pk j])"
proof (cases "net (page_request token pk 50 (50 * int j))")
  case (Inl e)
  then show ?thesis
    by (subst paginate.simps) (simp add: Let_def send_def page_def nth_request_def logged_def)
next
  case (Inr r)
  with assms have "status_code r \<noteq> 200 \<or> items_of r = []"
    by (auto simp: full_page_def page_def nth_request_def)
  with Inr show ?thesis
    by (subst paginate.simps)
       (auto simp: Let_def send_def page_def nth_request_def logged_def)
qed

lemma paginate_advance:
  assumes "\<forall>j<k. full_page net token pk (i + j)"
  shows "paginate net token pk mt files (50 * int i) w =
         paginate net token pk mt (files @ kept mt (pages_items net token pk i k))
           (50 * int (i + k)) (logged w (map (nth_request token pk) [i..<i + k]))"
  using assms
proof (induction k)
  case 0
  then show ?case by (simp add: pages_items_def kept_def logged_def)
next
  case (Suc k)
  have full: "full_page net token pk (i + k)" using Suc.prems by simp
  have "paginate net token pk mt files (50 * int i) w =
        paginate net token pk mt (files @ kept mt (pages_items net token pk i k))
           (50 * int (i + k)) (logged w (map (nth_request token pk) [i..<i + k]))"
    using Suc by simp
  also have "\<dots> = paginate net token pk mt
       ((files @ kept mt (pages_items net token pk i k)) @ kept mt (page_items net token pk (i + k)))
       (50 * int (Suc (i + k)))
       (logged (logged w (map (nth_request token pk) [i..<i + k])) [nth_request token pk (i + k)])"
    by (rule paginate_step [OF full])
  also have "\<dots> = paginate net token pk mt (files @ kept mt (pages_items net token pk i (Suc k)))
       (50 * int (i + Suc k)) (logged w (map (nth_request token pk) [i..<i + Suc k]))"
    by (simp only: logged_logged pages_items_Suc kept_append append_assoc add_Suc_right
          upt_Suc_append [OF le_add1] map_append list.map)
  finally show ?case .
qed

lemma paginate_run:
  assumes "\<forall>j<k. full_page net token pk (i + j)" and "\<not> full_page net token pk (i + k)"
  shows "paginate net token pk mt files (50 * int i) w =
         Some (case page net token pk (i + k) of
                 Inl e \<Rightarrow> Inl e
               | Inr r \<Rightarrow> Inr (files @ kept mt (pages_items net token pk i k)),
               logged w (map (nth_request token pk) [i..<i + Suc k]))"
  by (simp only: paginate_advance [OF assms(1)] paginate_stop [OF assms(2)] logged_logged
        add_Suc_right upt_Suc_append [OF le_add1] map_append list.map)

lemma full_prefix_Suc:
  assumes "full_page net token pk i" and "\<forall>j<k. full_page net token pk (Suc i + j)"
  shows "\<forall>j<Suc k. full_page net token pk (i + j)"
proof (intro allI impI)
  fix j assume "j < Suc k"
  show "full_page net token pk (i + j)"
  proof (cases j)
    case 0
    then show ?thesis using assms(1) by simp
  next
    case (Suc j')
    then show ?thesis using assms(2) \<open>j < Suc k\<close> by simp
  qed
qed

lemma paginate_returns_stops:
  assumes "paginate net token pk mt files offset w = Some y"
  shows "\<forall>i. offset = 50 * int i \<longrightarrow>
           (\<exists>k. (\<forall>j<k. full_page net token pk (i + j)) \<and> \<not> full_page net token pk (i + k))"
proof (rule paginate.raw_induct [where P = "\<lambda>net token pk mt files offset w y.
          \<forall>i. offset = 50 * int i \<longrightarrow>
            (\<exists>k. (\<forall>j<k. full_page net token pk (i + j)) \<and> \<not> full_page net token pk (i + k))",
        OF _ assms])
  fix rec :: "http \<Rightarrow> str \<Rightarrow> str \<Rightarrow> str option \<Rightarrow> item list \<Rightarrow> int \<Rightarrow> world
     \<Rightarrow> ((error + item list) \<times> world) option"
  fix net token pk mt files offset w y
  assume IH: "\<And>net token pk mt files offset w y. rec net token pk mt files offset w = Some y \<Longrightarrow>
     \<forall>i. offset = 50 * int i \<longrightarrow>
            (\<exists>k. (\<forall>j<k. full_page net token pk (i + j)) \<and> \<not> full_page net token pk (i + k))"
  assume body: "(let limit = 50;
          (res, w') = send net (page_request token pk limit offset) w
      in case res of
           Inl e \<Rightarrow> Some (Inl e, w')
         | Inr r \<Rightarrow>
             if status_code r = 200 then
               (let items = items_of r
                in if items = [] then Some (Inr files, w')
                   else rec net token pk mt
                          (append_items mt items files) (offset + limit) w')
             else Some (Inr files, w')) = Some y"
  show "\<forall>i. offset = 50 * int i \<longrightarrow>
            (\<exists>k. (\<forall>j<k. full_page net token pk (i + j)) \<and> \<not> full_page net token pk (i + k))"
  proof (intro allI impI)
    fix i assume off: "offset = 50 * int i"
    show "\<exists>k. (\<forall>j<k. full_page net token pk (i + j)) \<and> \<not> full_page net token pk (i + k)"
    proof (cases "full_page net token pk i")
      case False
      then have "(\<forall>j<0. full_page net token pk (i + j)) \<and> \<not> full_page net token pk (i + 0)"
        by simp
      then show ?thesis by (rule exI)
    next
      case True
      then obtain r where r: "net (page_request token pk 50 (50 * int i)) = Inr r"
          "status_code r = 200" "items_of r \<noteq> []"
        by (auto simp: full_page_def page_def nth_request_def split: sum.splits)
      from body have "rec net token pk mt (append_items mt (items_of r) files)
          (50 * int (Suc i)) (w\<lparr>log := log w @ [page_request token pk 50 (50 * int i)]\<rparr>) = Some y"
        unfolding off Let_def send_def Suc_offset by (simp add: r)
      from IH [OF this] have "50 * int (Suc i) = 50 * int (Suc i) \<longrightarrow>
          (\<exists>k. (\<forall>j<k. full_page net token pk (Suc i + j)) \<and> \<not> full_page net token pk (Suc i + k))"
        by (rule spec)
      then have "\<exists>k. (\<forall>j<k. full_page net token pk (Suc i + j)) \<and> \<not> full_page net token pk (Suc i + k)"
        by (rule mp) (rule refl)
      then obtain k where
        k: "\<forall>j<k. full_page net token pk (Suc i + j)" "\<not> full_page net token pk (Suc i + k)"
        by (elim exE conjE)
      have "\<forall>j<Suc k. full_page net token pk (i + j)"
        by (rule full_prefix_Suc [OF True k(1)])
      moreover have "\<not> full_page net token pk (i + Suc k)" using k(2) by simp
      ultimately show ?thesis by blast
    qed
  qed
qed

lemma paginate_diverges:
  assumes "\<forall>j. full_page net token pk j"
  shows "paginate net token pk mt [] 0 w = None"
proof (cases "paginate net token pk mt [] 0 w")
  case None
  then show ?thesis .
next
  case (Some y)
  from paginate_returns_stops [OF Some] have
    "\<exists>k. (\<forall>j<k. full_page net token pk (0 + j)) \<and> \<not> full_page net token pk (0 + k)"
    by simp
  with assms show ?thesis by blast
qed

lemma paginate_same_kept:
  assumes "\<And>items. kept mt items = kept mt' items"
  shows "paginate net token pk mt [] 0 w = paginate net token pk mt' [] 0 w"
proof (cases "\<exists>k. (\<forall>j<k. full_page net token pk (0 + j)) \<and> \<not> full_page net token pk (0 + k)")
  case True
  then obtain k where
    k: "\<forall>j<k. full_page net token pk (0 + j)" "\<not> full_page net token pk (0 + k)"
    by blast
  have "paginate net token pk mt [] (50 * int 0) w = paginate net token pk mt' [] (50 * int 0) w"
    by (simp only: paginate_run [OF k] assms)
  then show ?thesis by simp
next
  case False
  have none: "paginate net token pk m [] 0 w = None" for m
  proof (cases "paginate net token pk m [] 0 w")
    case None
    then show ?thesis .
  next
    case (Some y)
    from paginate_returns_stops [OF Some] have
      "\<exists>k. (\<forall>j<k. full_page net token pk (0 + j)) \<and> \<not> full_page net token pk (0 + k)"
      by simp
    with False show ?thesis by contradiction
  qed
  show ?thesis by (simp only: none)
qed



section \<open>The listing client around the loop\<close>

lemma fresh_miss: "cache_get fresh_world k = None"
  by (simp add: cache_get_def fresh_world_def)


lemma log_cache_set_logged: "log (cache_set (logged w reqs) k v t) = log w @ reqs"
  by (simp add: cache_set_def logged_def)



lemma cache_miss_run:
  assumes "cache_get w (cache_key_of pk mt) = None"
    and "\<forall>j<k. full_page net token pk j" and "\<not> full_page net token pk k"
  shows "get_files_from_public_link net token pk mt w =
         Some (case page net token pk k of
                 Inl e \<Rightarrow> (Inl e, logged w (map (nth_request token pk) [0..<Suc k]))
               | Inr r \<Rightarrow>
                   (Inr (kept mt (pages_items net token pk 0 k)),
                    cache_set (logged w (map (nth_request token pk) [0..<Suc k]))
                      (cache_key_of pk mt) (kept mt (pages_items net token pk 0 k)) 3600))"
proof -
  have "paginate net token pk mt [] (50 * int 0) w =
         Some (case page net token pk (0 + k) of
                 Inl e \<Rightarrow> Inl e
               | Inr r \<Rightarrow> Inr ([] @ kept mt (pages_items net token pk 0 k)),
               logged w (map (nth_request token pk) [0..<0 + Suc k]))"
    by (rule paginate_run) (use assms in simp_all)
  then have "paginate net token pk mt [] 0 w =
         Some (case page net token pk k of
                 Inl e \<Rightarrow> Inl e
               | Inr r \<Rightarrow> Inr (kept mt (pages_items net token pk 0 k)),
               logged w (map (nth_request token pk) [0..<Suc k]))"
    by (simp split: sum.splits)
  then show ?thesis
    by (simp add: get_files_from_public_link_def assms(1) split: sum.splits)
qed

lemma empty_page_not_full: "empty_page net token pk k \<Longrightarrow> \<not> full_page net token pk k"
  by (auto simp: empty_page_def full_page_def split: sum.splits)

lemma refused_page_not_full: "refused_page net token pk k \<Longrightarrow> \<not> full_page net token pk k"
  by (auto simp: refused_page_def full_page_def split: sum.splits)

lemma cache_miss_stop:
  assumes "cache_get w (cache_key_of pk mt) = None"
    and "\<forall>j<k. full_page net token pk j"
    and "empty_page net token pk k \<or> refused_page net token pk k"
  shows "get_files_from_public_link net token pk mt w =
         Some (Inr (kept mt (pages_items net token pk 0 k)),
               cache_set (logged w (map (nth_request token pk) [0..<Suc k]))
                 (cache_key_of pk mt) (kept mt (pages_items net token pk 0 k)) 3600)"
proof -
  from assms(3) have stop: "\<not> full_page net token pk k"
    using empty_page_not_full refused_page_not_full by blast
  from assms(3) obtain r where "page net token pk k = Inr r"
    by (auto simp: empty_page_def refused_page_def split: sum.splits)
  then show ?thesis
    by (simp add: cache_miss_run [OF assms(1,2) stop])
qed

lemma miss_result:
  assumes "cache_get w (cache_key_of pk mt) = None"
    and "get_files_from_public_link net token pk mt w = Some (Inr files, w')"
  shows "\<exists>w1. paginate net token pk mt [] 0 w = Some (Inr files, w1)
           \<and> w' = cache_set w1 (cache_key_of pk mt) files 3600"
  using assms
  by (auto simp: get_files_from_public_link_def split: option.splits sum.splits prod.splits)

lemma miss_returns:
  assumes "cache_get w (cache_key_of pk mt) = None"
    and "get_files_from_public_link net token pk mt w = Some (Inr files, w')"
  shows "\<exists>k. (\<forall>j<k. full_page net token pk j)
           \<and> log w' = log w @ map (nth_request token pk) [0..<Suc k]
           \<and> files = kept mt (pages_items net token pk 0 k)"
proof -
  from miss_result [OF assms] obtain w1 where
    w1: "paginate net token pk mt [] 0 w = Some (Inr files, w1)"
      "w' = cache_set w1 (cache_key_of pk mt) files 3600"
    by blast
  from paginate_returns_stops [OF w1(1)] obtain k where
    k: "\<forall>j<k. full_page net token pk (0 + j)" "\<not> full_page net token pk (0 + k)"
    by auto
  have "paginate net token pk mt [] (50 * int 0) w =
         Some (case page net token pk (0 + k) of
                 Inl e \<Rightarrow> Inl e
               | Inr r \<Rightarrow> Inr ([] @ kept mt (pages_items net token pk 0 k)),
               logged w (map (nth_request token pk) [0..<0 + Suc k]))"
    by (rule paginate_run [OF k])
  with w1(1) have "files = kept mt (pages_items net token pk 0 k)"
      and "w1 = logged w (map (nth_request token pk) [0..<Suc k])"
    by (auto split: sum.splits)
  with k(1) w1(2) have "(\<forall>j<k. full_page net token pk j)
           \<and> log w' = log w @ map (nth_request token pk) [0..<Suc k]
           \<and> files = kept mt (pages_items net token pk 0 k)"
    by (simp add: log_cache_set_logged)
  then show ?thesis by (rule exI)
qed



section \<open>Facts about the test doubles\<close>

lemma lit_limit_offset: "lit ''limit'' \<noteq> lit ''offset''"
  by (simp add: lit_def)

lemma query_nth_request:
  "query_param (nth_request token pk j) (lit ''limit'') = 50"
  "query_param (nth_request token pk j) (lit ''offset'') = 50 * int j"
  using lit_limit_offset
  by (auto simp: query_param_def nth_request_def page_request_def)

lemma page_fake_api:
  "page (fake_api all_items) token pk j = Inr (ok_page (take 50 (drop (50 * j) all_items)))"
  by (simp add: page_def fake_api_def query_nth_request nat_mult_distrib)

lemma items_of_ok_page: "items_of (ok_page items) = items"
  by (simp add: items_of_def ok_page_def)

lemma full_page_fake_api: "full_page (fake_api all_items) token pk j \<longleftrightarrow> 50 * j < length all_items"
  by (auto simp: full_page_def page_fake_api items_of_def ok_page_def)

lemma page_items_fake_api:
  "page_items (fake_api all_items) token pk j = take 50 (drop (50 * j) all_items)"
  by (simp add: page_items_def page_fake_api items_of_ok_page)

lemma pages_items_fake_api:
  "pages_items (fake_api all_items) token pk 0 k = take (50 * k) all_items"
proof (induction k)
  case 0
  then show ?case by (simp add: pages_items_def)
next
  case (Suc k)
  have "take (50 * k + 50) all_items = take (50 * k) all_items @ take 50 (drop (50 * k) all_items)"
    by (rule take_add)
  then show ?case
    using Suc by (simp add: pages_items_Suc page_items_fake_api add.commute)
qed

lemma fake_api_listing:
  assumes "cache_get w (cache_key_of pk None) = None" and "k = (length all_items + 49) div 50"
  shows "get_files_from_public_link (fake_api all_items) token pk None w =
         Some (Inr all_items,
               cache_set (logged w (map (nth_request token pk) [0..<Suc k]))
                 (cache_key_of pk None) all_items 3600)"
proof -
  have full: "\<forall>j<k. full_page (fake_api all_items) token pk j"
    using assms(2) by (auto simp: full_page_fake_api)
  have stop: "\<not> full_page (fake_api all_items) token pk k"
    using assms(2) by (auto simp: full_page_fake_api)
  have len: "length all_items \<le> 50 * k" using assms(2) by auto
  have "kept None (pages_items (fake_api all_items) token pk 0 k) = all_items"
    by (simp add: kept_def skipped_def pages_items_fake_api len)
  then show ?thesis
    by (simp add: cache_miss_run [OF assms(1) full stop] page_fake_api)
qed

lemma fake_api_125:
  assumes "cache_get w (cache_key_of pk None) = None" and "length all_items = 125"
  shows "get_files_from_public_link (fake_api all_items) token pk None w =
         Some (Inr all_items,
               cache_set (logged w [nth_request token pk 0, nth_request token pk 1,
                                    nth_request token pk 2, nth_request token pk 3])
                 (cache_key_of pk None) all_items 3600)"
proof -
  have "3 = (length all_items + 49) div 50" using assms(2) by simp
  from fake_api_listing [OF assms(1) this] show ?thesis
    by (simp only: upt_4 list.map)
qed

lemma length_sample_items: "length sample_items = 125"
  by (simp add: sample_items_def)

lemma page_scripted_api:
  "page (scripted_api script) token pk j = (if j < length script then script ! j else Inr (ok_page []))"
proof -
  have "nat (50 * int j div 50) = j" by simp
  then show ?thesis
    by (simp add: page_def scripted_api_def query_nth_request Let_def)
qed



lemma two_items_pages:
  "full_page (fake_api two_items) token pk 0"
  "empty_page (fake_api two_items) token pk (Suc 0)"
  "pages_items (fake_api two_items) token pk 0 (Suc 0) = two_items"
  by (simp_all add: full_page_fake_api empty_page_def page_fake_api pages_items_fake_api
        items_of_def ok_page_def two_items_def)

lemma two_items_listing:
  "get_files_from_public_link (fake_api two_items) token pk mt fresh_world =
     Some (Inr (kept mt two_items),
           cache_set (logged fresh_world [nth_request token pk 0, nth_request token pk (Suc 0)])
             (cache_key_of pk mt) (kept mt two_items) 3600)"
proof -
  have full: "\<forall>j<Suc 0. full_page (fake_api two_items) token pk j"
    by (simp add: two_items_pages)
  have stop: "empty_page (fake_api two_items) token pk (Suc 0) \<or> refused_page (fake_api two_items) token pk (Suc 0)"
    by (simp add: two_items_pages)
  show ?thesis
    using cache_miss_stop [OF fresh_miss full stop, of mt]
    by (simp only: two_items_pages upt_2 list.map)
qed



section \<open>Pagination\<close>

text \<open>
  Claim C2, as the code has it. On a cache miss the client asks for pages of 50 items at
  the offsets 0, 50, 100, ... and stops at the first page without items: after \<open>k\<close>
  full pages and an empty one it has sent \<open>k + 1\<close> requests and returns the items of
  the full pages, filtered, in the order received. Against a server holding exactly 125
  items it returns those 125 items in order and sends four requests (offsets 0, 50, 100
  and 150): the page of 25 items is not empty, so the loop asks once more.
\<close>

theorem C2_pagination:
  "(cache_get w (cache_key_of public_key media_type) = None
      \<and> (\<forall>j<k. full_page net token public_key j) \<and> empty_page net token public_key k \<longrightarrow>
    get_files_from_public_link net token public_key media_type w =
      Some (Inr (kept media_type (pages_items net token public_key 0 k)),
            cache_set (logged w (map (nth_request token public_key) [0..<Suc k]))
              (cache_key_of public_key media_type)
              (kept media_type (pages_items net token public_key 0 k)) 3600))
   \<and> nth_request token public_key j =
       \<lparr>url = YANDEX_DISK_API_URL @ lit ''?public_key='' @ public_key,
        headers = auth_headers token,
        params = [(lit ''limit'', 50), (lit ''offset'', 50 * int j)]\<rparr>
   \<and> (cache_get w (cache_key_of public_key None) = None \<and> length all_items = 125 \<longrightarrow>
    get_files_from_public_link (fake_api all_items) token public_key None w =
      Some (Inr all_items,
            cache_set (logged w [nth_request token public_key 0, nth_request token public_key 1,
                                 nth_request token public_key 2, nth_request token public_key 3])
              (cache_key_of public_key None) all_items 3600))"
proof (intro conjI impI)
  assume "cache_get w (cache_key_of public_key media_type) = None
      \<and> (\<forall>j<k. full_page net token public_key j) \<and> empty_page net token public_key k"
  then show "get_files_from_public_link net token public_key media_type w =
      Some (Inr (kept media_type (pages_items net token public_key 0 k)),
            cache_set (logged w (map (nth_request token public_key) [0..<Suc k]))
              (cache_key_of public_key media_type)
              (kept media_type (pages_items net token public_key 0 k)) 3600)"
    by (intro cache_miss_stop) simp_all
next
  show "nth_request token public_key j =
       \<lparr>url = YANDEX_DISK_API_URL @ lit ''?public_key='' @ public_key,
        headers = auth_headers token,
        params = [(lit ''limit'', 50), (lit ''offset'', 50 * int j)]\<rparr>"
    by (rule nth_request_eq)
next
  assume "cache_get w (cache_key_of public_key None) = None \<and> length all_items = 125"
  then show "get_files_from_public_link (fake_api all_items) token public_key None w =
      Some (Inr all_items,
            cache_set (logged w [nth_request token public_key 0, nth_request token public_key 1,
                                 nth_request token public_key 2, nth_request token public_key 3])
              (cache_key_of public_key None) all_items 3600)"
    by (intro fake_api_125) simp_all
qed

text \<open>
  The run on 125 numbered items: four requests are logged, not three.
\<close>

theorem C2_counterexample:
  "get_files_from_public_link (fake_api sample_items) (lit ''token'') (lit ''key'') None fresh_world =
     Some (Inr sample_items,
           cache_set (logged fresh_world
                 [nth_request (lit ''token'') (lit ''key'') 0, nth_request (lit ''token'') (lit ''key'') 1,
                  nth_request (lit ''token'') (lit ''key'') 2, nth_request (lit ''token'') (lit ''key'') 3])
               (cache_key_of (lit ''key'') None) sample_items 3600)
   \<and> length (log (snd (the (get_files_from_public_link (fake_api sample_items) (lit ''token'')
         (lit ''key'') None fresh_world)))) = 4"
proof -
  have run: "get_files_from_public_link (fake_api sample_items) (lit ''token'') (lit ''key'') None fresh_world =
     Some (Inr sample_items,
           cache_set (logged fresh_world
                 [nth_request (lit ''token'') (lit ''key'') 0, nth_request (lit ''token'') (lit ''key'') 1,
                  nth_request (lit ''token'') (lit ''key'') 2, nth_request (lit ''token'') (lit ''key'') 3])
               (cache_key_of (lit ''key'') None) sample_items 3600)"
    by (rule fake_api_125 [OF fresh_miss length_sample_items])
  have "length (log (snd (the (get_files_from_public_link (fake_api sample_items) (lit ''token'')
         (lit ''key'') None fresh_world)))) = 4"
    unfolding run option.sel snd_conv log_cache_set_logged by (simp add: fresh_world_def)
  with run show ?thesis by (rule conjI)
qed

theorem C2_witness:
  "get_files_from_public_link (fake_api sample_items) (lit ''token'') (lit ''key'') None fresh_world =
     Some (Inr (kept None (pages_items (fake_api sample_items) (lit ''token'') (lit ''key'') 0 3)),
            cache_set (logged fresh_world (map (nth_request (lit ''token'') (lit ''key'')) [0..<Suc 3]))
              (cache_key_of (lit ''key'') None)
              (kept None (pages_items (fake_api sample_items) (lit ''token'') (lit ''key'') 0 3)) 3600)
   \<and> get_files_from_public_link (fake_api sample_items) (lit ''token'') (lit ''key'') None fresh_world =
      Some (Inr sample_items,
            cache_set (logged fresh_world
                 [nth_request (lit ''token'') (lit ''key'') 0, nth_request (lit ''token'') (lit ''key'') 1,
                  nth_request (lit ''token'') (lit ''key'') 2, nth_request (lit ''token'') (lit ''key'') 3])
              (cache_key_of (lit ''key'') None) sample_items 3600)"
proof -
  have miss: "cache_get fresh_world (cache_key_of (lit ''key'') None) = None"
    by (rule fresh_miss)
  have full: "\<forall>j<3. full_page (fake_api sample_items) (lit ''token'') (lit ''key'') j"
    by (simp add: full_page_fake_api length_sample_items)
  have stop: "empty_page (fake_api sample_items) (lit ''token'') (lit ''key'') 3"
    by (simp add: empty_page_def page_fake_api items_of_ok_page length_sample_items)
       (simp add: ok_page_def)
  show ?thesis
    using C2_pagination [of fresh_world "lit ''key''" None 3 "fake_api sample_items" "lit ''token''"
        0 sample_items] miss full stop length_sample_items
    by blast
qed


section \<open>Early termination\<close>

text \<open>
  Claim C3. When the pages before page \<open>k\<close> are full and page \<open>k\<close> comes back with a
  status other than 200, the client returns the items of the pages before it as a
  result, not as an exception, and the request for page \<open>k\<close> is the last one logged.
  In particular, when the second page is refused the result is the first page's items
  and only two requests were sent.
\<close>

theorem C3_early_termination:
  "(cache_get w (cache_key_of public_key media_type) = None
      \<and> (\<forall>j<k. full_page net token public_key j) \<and> refused_page net token public_key k \<longrightarrow>
    get_files_from_public_link net token public_key media_type w =
      Some (Inr (kept media_type (pages_items net token public_key 0 k)),
            cache_set (logged w (map (nth_request token public_key) [0..<Suc k]))
              (cache_key_of public_key media_type)
              (kept media_type (pages_items net token public_key 0 k)) 3600))
   \<and> (cache_get w (cache_key_of public_key None) = None
      \<and> full_page net token public_key 0 \<and> refused_page net token public_key (Suc 0) \<longrightarrow>
    get_files_from_public_link net token public_key None w =
      Some (Inr (page_items net token public_key 0),
            cache_set (logged w [nth_request token public_key 0, nth_request token public_key (Suc 0)])
              (cache_key_of public_key None) (page_items net token public_key 0) 3600))"
proof (intro conjI impI)
  assume "cache_get w (cache_key_of public_key media_type) = None
      \<and> (\<forall>j<k. full_page net token public_key j) \<and> refused_page net token public_key k"
  then show "get_files_from_public_link net token public_key media_type w =
      Some (Inr (kept media_type (pages_items net token public_key 0 k)),
            cache_set (logged w (map (nth_request token public_key) [0..<Suc k]))
              (cache_key_of public_key media_type)
              (kept media_type (pages_items net token public_key 0 k)) 3600)"
    by (intro cache_miss_stop) simp_all
next
  assume a: "cache_get w (cache_key_of public_key None) = None
      \<and> full_page net token public_key 0 \<and> refused_page net token public_key (Suc 0)"
  then have "\<forall>j<Suc 0. full_page net token public_key j" by simp
  with a have "get_files_from_public_link net token public_key None w =
      Some (Inr (kept None (pages_items net token public_key 0 (Suc 0))),
            cache_set (logged w (map (nth_request token public_key) [0..<Suc (Suc 0)]))
              (cache_key_of public_key None)
              (kept None (pages_items net token public_key 0 (Suc 0))) 3600)"
    by (intro cache_miss_stop) simp_all
  then show "get_files_from_public_link net token public_key None w =
      Some (Inr (page_items net token public_key 0),
            cache_set (logged w [nth_request token public_key 0, nth_request token public_key (Suc 0)])
              (cache_key_of public_key None) (page_items net token public_key 0) 3600)"
    by (simp only: kept_None pages_items_1 upt_2 list.map)
qed

theorem C3_witness:
  "get_files_from_public_link three_pages (lit ''token'') (lit ''key'') None fresh_world =
      Some (Inr [numbered_item 1, numbered_item 2],
            cache_set (logged fresh_world
                 [nth_request (lit ''token'') (lit ''key'') 0, nth_request (lit ''token'') (lit ''key'') (Suc 0)])
              (cache_key_of (lit ''key'') None) [numbered_item 1, numbered_item 2] 3600)
   \<and> get_files_from_public_link three_pages (lit ''token'') (lit ''key'') None fresh_world =
      Some (Inr (kept None (pages_items three_pages (lit ''token'') (lit ''key'') 0 (Suc 0))),
            cache_set (logged fresh_world (map (nth_request (lit ''token'') (lit ''key'')) [0..<Suc (Suc 0)]))
              (cache_key_of (lit ''key'') None)
              (kept None (pages_items three_pages (lit ''token'') (lit ''key'') 0 (Suc 0))) 3600)"
proof -
  have miss: "cache_get fresh_world (cache_key_of (lit ''key'') None) = None"
    by (rule fresh_miss)
  have full0: "full_page three_pages (lit ''token'') (lit ''key'') 0"
    by (simp add: full_page_def three_pages_def page_scripted_api items_of_def ok_page_def)
  then have full: "\<forall>j<Suc 0. full_page three_pages (lit ''token'') (lit ''key'') j"
    by simp
  have stop: "refused_page three_pages (lit ''token'') (lit ''key'') (Suc 0)"
    by (simp add: refused_page_def three_pages_def page_scripted_api failed_page_def)
  have items: "page_items three_pages (lit ''token'') (lit ''key'') 0 = [numbered_item 1, numbered_item 2]"
    by (simp add: page_items_def three_pages_def page_scripted_api items_of_def ok_page_def)
  show ?thesis
    using C3_early_termination [of fresh_world "lit ''key''" None "Suc 0" three_pages "lit ''token''"]
      miss full0 full stop
    unfolding items
    by blast
qed


section \<open>The result cache\<close>







section \<open>The media-type filter\<close>




text \<open>
  Claim C10. The empty string as filter behaves as no filter: the inner loop appends
  every item, the page loop computes the same as with \<open>None\<close>, and a call that
  returns on a miss returns all items of all fetched pages.
\<close>

theorem C10_empty_filter:
  "append_items (Some []) items acc = acc @ items
   \<and> append_items (Some []) items acc = append_items None items acc
   \<and> paginate net token public_key (Some []) [] 0 w = paginate net token public_key None [] 0 w
   \<and> (cache_get w (cache_key_of public_key (Some [])) = None
        \<and> get_files_from_public_link net token public_key (Some []) w = Some (Inr files, w') \<longrightarrow>
      (\<exists>k. (\<forall>j<k. full_page net token public_key j)
          \<and> log w' = log w @ map (nth_request token public_key) [0..<Suc k]
          \<and> files = pages_items net token public_key 0 k))"
proof (intro conjI impI)
  show "append_items (Some []) items acc = acc @ items"
    by (rule append_items_falsy)
  show "append_items (Some []) items acc = append_items None items acc"
    by (simp add: append_items_kept kept_falsy kept_None)
  show "paginate net token public_key (Some []) [] 0 w = paginate net token public_key None [] 0 w"
    by (rule paginate_same_kept) (simp add: kept_falsy kept_None)
next
  assume "cache_get w (cache_key_of public_key (Some [])) = None
        \<and> get_files_from_public_link net token public_key (Some []) w = Some (Inr files, w')"
  then have "\<exists>k. (\<forall>j<k. full_page net token public_key j)
           \<and> log w' = log w @ map (nth_request token public_key) [0..<Suc k]
           \<and> files = kept (Some []) (pages_items net token public_key 0 k)"
    by (intro miss_returns) simp_all
  then show "\<exists>k. (\<forall>j<k. full_page net token public_key j)
          \<and> log w' = log w @ map (nth_request token public_key) [0..<Suc k]
          \<and> files = pages_items net token public_key 0 k"
    by (simp only: kept_falsy)
qed

theorem C10_witness:
  "get_files_from_public_link (fake_api two_items) (lit ''token'') (lit ''key'') (Some []) fresh_world =
     Some (Inr two_items,
           cache_set (logged fresh_world
                 [nth_request (lit ''token'') (lit ''key'') 0, nth_request (lit ''token'') (lit ''key'') (Suc 0)])
             (cache_key_of (lit ''key'') (Some [])) two_items 3600)
   \<and> (\<exists>k. (\<forall>j<k. full_page (fake_api two_items) (lit ''token'') (lit ''key'') j)
        \<and> log (cache_set (logged fresh_world
                 [nth_request (lit ''token'') (lit ''key'') 0, nth_request (lit ''token'') (lit ''key'') (Suc 0)])
             (cache_key_of (lit ''key'') (Some [])) two_items 3600) =
            log fresh_world @ map (nth_request (lit ''token'') (lit ''key'')) [0..<Suc k]
        \<and> two_items = pages_items (fake_api two_items) (lit ''token'') (lit ''key'') 0 k)"
proof -
  have r: "get_files_from_public_link (fake_api two_items) (lit ''token'') (lit ''key'') (Some []) fresh_world =
     Some (Inr two_items,
           cache_set (logged fresh_world
                 [nth_request (lit ''token'') (lit ''key'') 0, nth_request (lit ''token'') (lit ''key'') (Suc 0)])
             (cache_key_of (lit ''key'') (Some [])) two_items 3600)"
    using two_items_listing [of "lit ''token''" "lit ''key''" "Some []"] by (simp only: kept_falsy)
  show ?thesis
    using r
      C10_empty_filter [THEN conjunct2, THEN conjunct2, THEN conjunct2, rule_format, OF conjI,
        OF fresh_miss r]
    by (rule conjI)
qed


section \<open>Download-link resolvers: the requests and the results\<close>

lemma blocking_log:
  "snd (get_download_link net token pk fp w) = logged w [link_request token (blocking_url pk fp)]"
  by (simp add: get_download_link_def Let_def send_def logged_def link_request_def blocking_url_def
        split: sum.splits)

lemma async_log:
  "snd (get_download_link_async net token pk fp w) = logged w [link_request token (async_url pk fp)]"
  by (simp add: get_download_link_async_def Let_def send_def logged_def link_request_def async_url_def
        split: sum.splits)

lemma urls_differ: "blocking_url pk fp \<noteq> async_url pk fp"
  by (simp add: blocking_url_def async_url_def lit_def)

lemma quote_plus_example: "quote_plus (lit ''a b/c'') = lit ''a+b%2Fc''"
  by (simp add: quote_plus_def lit_def utf8_def quote_octet_def always_safe_def hex_digit_def)

lemma fst_blocking:
  "fst (get_download_link net token pk fp w) =
     (case net (link_request token (blocking_url pk fp)) of
        Inl e \<Rightarrow> Inl e
      | Inr r \<Rightarrow> Inr (if status_code r = 200 then (case href r of Some h \<Rightarrow> h | None \<Rightarrow> []) else []))"
  by (simp add: get_download_link_def Let_def send_def link_request_def blocking_url_def
        split: sum.splits)

lemma fst_async:
  "fst (get_download_link_async net token pk fp w) =
     (case net (link_request token (async_url pk fp)) of
        Inl e \<Rightarrow> Inl e
      | Inr r \<Rightarrow> Inr (if status_code r = 200 then (case href r of Some h \<Rightarrow> h | None \<Rightarrow> []) else []))"
  by (simp add: get_download_link_async_def Let_def send_def link_request_def async_url_def
        split: sum.splits)


lemma quote_plus_Nil: "quote_plus [] = []"
  by (simp add: quote_plus_def)

lemma quote_plus_Cons:
  "quote_plus (c # s) =
     (if c = 32 then [43] else concat (map quote_octet (utf8 c))) @ quote_plus s"
  by (simp add: quote_plus_def)

lemma quote_plus_append: "quote_plus (s @ t) = quote_plus s @ quote_plus t"
  by (simp add: quote_plus_def)

lemma quote_plus_ascii:
  "c < 128 \<Longrightarrow>
   quote_plus [c] =
     (if c = 32 then [43]
      else if (65 \<le> c \<and> c \<le> 90) \<or> (97 \<le> c \<and> c \<le> 122) \<or> (48 \<le> c \<and> c \<le> 57) \<or>
              c = 95 \<or> c = 46 \<or> c = 45 \<or> c = 126 then [c]
      else [37, (if c div 16 < 10 then 48 + c div 16 else 55 + c div 16),
                (if c mod 16 < 10 then 48 + c mod 16 else 55 + c mod 16)])"
  by (simp add: quote_plus_def utf8_def quote_octet_def always_safe_def hex_digit_def)

lemma quote_plus_samples:
  "quote_plus [97, 32, 98, 47, 99, 43, 100, 126, 101, 95, 102, 46, 103, 45, 104, 63, 38, 61] =
     [97, 43, 98, 37, 50, 70, 99, 37, 50, 66, 100, 126, 101, 95, 102, 46, 103, 45, 104,
      37, 51, 70, 37, 50, 54, 37, 51, 68]"
  "quote_plus [1092, 1072, 32, 8364, 128512] =
     [37, 68, 49, 37, 56, 52, 37, 68, 48, 37, 66, 48, 43, 37, 69, 50, 37, 56, 50, 37, 65, 67,
      37, 70, 48, 37, 57, 70, 37, 57, 56, 37, 56, 48]"
  by (simp_all add: quote_plus_def utf8_def quote_octet_def always_safe_def hex_digit_def)

lemma utf8_octets: "c < 1114112 \<Longrightarrow> \<forall>b\<in>set (utf8 c). b < 256"
  by (auto simp: utf8_def)

lemma hex_digit_safe: "d < 16 \<Longrightarrow> always_safe (hex_digit d)"
  by (auto simp: hex_digit_def always_safe_def)

lemma quote_octet_alphabet:
  "b < 256 \<Longrightarrow> \<forall>d\<in>set (quote_octet b). always_safe d \<or> d = 37"
  using hex_digit_safe [of "b div 16"] hex_digit_safe [of "b mod 16"]
  by (auto simp: quote_octet_def)

lemma quote_plus_alphabet:
  assumes "\<forall>c\<in>set s. c < 1114112"
  shows "\<forall>d\<in>set (quote_plus s). always_safe d \<or> d = 37 \<or> d = 43"
  using assms
proof (induction s)
  case Nil
  then show ?case by (simp add: quote_plus_Nil)
next
  case (Cons c s)
  then have "c < 1114112" by simp
  then have "\<forall>b\<in>set (utf8 c). b < 256" by (rule utf8_octets)
  then have "\<forall>d\<in>set (concat (map quote_octet (utf8 c))). always_safe d \<or> d = 37"
    using quote_octet_alphabet by auto
  with Cons show ?case by (auto simp: quote_plus_Cons)
qed

lemma quote_plus_unreserved:
  assumes "\<forall>c\<in>set s. always_safe c"
  shows "quote_plus s = s"
  using assms
proof (induction s)
  case Nil
  then show ?case by (simp add: quote_plus_Nil)
next
  case (Cons c s)
  then have "always_safe c" by simp
  then have "c < 128" "c \<noteq> 32" by (auto simp: always_safe_def)
  with \<open>always_safe c\<close> Cons show ?case
    by (simp add: quote_plus_Cons utf8_def quote_octet_def)
qed

lemma sample_blocking_url:
  "blocking_url (map of_char ''key'') (map of_char ''0123456789012345678901234567890/a b.txt'') =
     map of_char ''https://cloud-api.yandex.net/v1/disk/public/resources/download?public_key=key//0123456789012345678901234567890&path=%2Fa+b.txt''"
  by (simp add: blocking_url_def YANDEX_DISK_API_URL_def lit_def quote_plus_def utf8_def
        quote_octet_def always_safe_def hex_digit_def)

lemma sample_async_url:
  "async_url (map of_char ''key'') (map of_char ''0123456789012345678901234567890/a b.txt'') =
     map of_char ''https://cloud-api.yandex.net/v1/disk/public/resources/download?public_key=key&path=0123456789012345678901234567890/a b.txt''"
  by (simp add: async_url_def YANDEX_DISK_API_URL_def lit_def)

lemma last_logged: "url (last (log (logged w [link_request token u]))) = u"
  by (simp add: logged_def link_request_def)

text \<open>
  Claim C1. The blocking resolver asks for the public key extended by \<open>//\<close> and the
  first 31 characters of the path, with the percent-encoded rest of the path as
  \<open>path\<close>; the non-blocking resolver asks for the key and the path as they are,
  unencoded. The two URLs differ (here: on every input, so on some); for the key
  \<open>key\<close> and a path of 31 digits followed by \<open>/a b.txt\<close> they are written out.
  The encoding works character by character: a space becomes \<open>+\<close>, a letter, a digit
  and \<open>_.-~\<close> stay, any other ASCII character becomes \<open>%\<close> and its two upper-case
  hexadecimal digits, a character beyond ASCII the same for each octet of its UTF-8
  form; so the encoded text consists of letters, digits, \<open>_.-~\<close>, \<open>%\<close> and \<open>+\<close>.
\<close>

theorem C1_resolver_requests:
  "snd (get_download_link net token public_key file_path w) =
     logged w [\<lparr>url = YANDEX_DISK_API_URL @ lit ''/download?public_key=''
                      @ (public_key @ lit ''//'' @ take 31 file_path)
                      @ lit ''&path='' @ quote_plus (drop 31 file_path),
                 headers = auth_headers token, params = []\<rparr>]
   \<and> snd (get_download_link_async net token public_key file_path w) =
     logged w [\<lparr>url = YANDEX_DISK_API_URL @ lit ''/download?public_key='' @ public_key
                      @ lit ''&path='' @ file_path,
                 headers = auth_headers token, params = []\<rparr>]
   \<and> url (last (log (snd (get_download_link net token public_key file_path w)))) \<noteq>
     url (last (log (snd (get_download_link_async net token public_key file_path w))))
   \<and> url (last (log (snd (get_download_link net token (map of_char ''key'')
                            (map of_char ''0123456789012345678901234567890/a b.txt'') w)))) =
       map of_char ''https://cloud-api.yandex.net/v1/disk/public/resources/download?public_key=key//0123456789012345678901234567890&path=%2Fa+b.txt''
   \<and> url (last (log (snd (get_download_link_async net token (map of_char ''key'')
                            (map of_char ''0123456789012345678901234567890/a b.txt'') w)))) =
       map of_char ''https://cloud-api.yandex.net/v1/disk/public/resources/download?public_key=key&path=0123456789012345678901234567890/a b.txt''
   \<and> auth_headers token = [(map of_char ''Authorization'', map of_char ''OAuth '' @ token)]
   \<and> quote_plus (s @ t) = quote_plus s @ quote_plus t
   \<and> (c < 128 \<longrightarrow>
        quote_plus [c] =
          (if c = 32 then [43]
           else if (65 \<le> c \<and> c \<le> 90) \<or> (97 \<le> c \<and> c \<le> 122) \<or> (48 \<le> c \<and> c \<le> 57) \<or>
                   c = 95 \<or> c = 46 \<or> c = 45 \<or> c = 126 then [c]
           else [37, (if c div 16 < 10 then 48 + c div 16 else 55 + c div 16),
                     (if c mod 16 < 10 then 48 + c mod 16 else 55 + c mod 16)]))
   \<and> quote_plus [97, 32, 98, 47, 99, 43, 100, 126, 101, 95, 102, 46, 103, 45, 104, 63, 38, 61] =
        [97, 43, 98, 37, 50, 70, 99, 37, 50, 66, 100, 126, 101, 95, 102, 46, 103, 45, 104,
         37, 51, 70, 37, 50, 54, 37, 51, 68]
   \<and> quote_plus [1092, 1072, 32, 8364, 128512] =
        [37, 68, 49, 37, 56, 52, 37, 68, 48, 37, 66, 48, 43, 37, 69, 50, 37, 56, 50, 37, 65, 67,
         37, 70, 48, 37, 57, 70, 37, 57, 56, 37, 56, 48]
   \<and> ((\<forall>c\<in>set s. c < 1114112) \<longrightarrow>
        (\<forall>d\<in>set (quote_plus s).
           (65 \<le> d \<and> d \<le> 90) \<or> (97 \<le> d \<and> d \<le> 122) \<or> (48 \<le> d \<and> d \<le> 57) \<or>
           d = 95 \<or> d = 46 \<or> d = 45 \<or> d = 126 \<or> d = 37 \<or> d = 43))"
proof -
  have differ: "blocking_url public_key file_path \<noteq> async_url public_key file_path"
    by (rule urls_differ)
  have requests:
    "snd (get_download_link net token public_key file_path w) =
       logged w [\<lparr>url = YANDEX_DISK_API_URL @ lit ''/download?public_key=''
                      @ (public_key @ lit ''//'' @ take 31 file_path)
                      @ lit ''&path='' @ quote_plus (drop 31 file_path),
                 headers = auth_headers token, params = []\<rparr>]
     \<and> snd (get_download_link_async net token public_key file_path w) =
       logged w [\<lparr>url = YANDEX_DISK_API_URL @ lit ''/download?public_key='' @ public_key
                      @ lit ''&path='' @ file_path,
                 headers = auth_headers token, params = []\<rparr>]
     \<and> url (last (log (snd (get_download_link net token public_key file_path w)))) \<noteq>
       url (last (log (snd (get_download_link_async net token public_key file_path w))))"
    using differ
    by (simp add: blocking_log async_log logged_def link_request_def blocking_url_def async_url_def)
  have sample1: "url (last (log (snd (get_download_link net token (map of_char ''key'')
                            (map of_char ''0123456789012345678901234567890/a b.txt'') w)))) =
       map of_char ''https://cloud-api.yandex.net/v1/disk/public/resources/download?public_key=key//0123456789012345678901234567890&path=%2Fa+b.txt''"
    by (simp only: blocking_log last_logged sample_blocking_url)
  have sample2: "url (last (log (snd (get_download_link_async net token (map of_char ''key'')
                            (map of_char ''0123456789012345678901234567890/a b.txt'') w)))) =
       map of_char ''https://cloud-api.yandex.net/v1/disk/public/resources/download?public_key=key&path=0123456789012345678901234567890/a b.txt''"
    by (simp only: async_log last_logged sample_async_url)
  have hdr: "auth_headers token = [(map of_char ''Authorization'', map of_char ''OAuth '' @ token)]"
    by (simp add: auth_headers_def lit_def)
  have ascii: "c < 128 \<longrightarrow>
        quote_plus [c] =
          (if c = 32 then [43]
           else if (65 \<le> c \<and> c \<le> 90) \<or> (97 \<le> c \<and> c \<le> 122) \<or> (48 \<le> c \<and> c \<le> 57) \<or>
                   c = 95 \<or> c = 46 \<or> c = 45 \<or> c = 126 then [c]
           else [37, (if c div 16 < 10 then 48 + c div 16 else 55 + c div 16),
                     (if c mod 16 < 10 then 48 + c mod 16 else 55 + c mod 16)])"
    using quote_plus_ascii by blast
  have alphabet: "(\<forall>c\<in>set s. c < 1114112) \<longrightarrow>
        (\<forall>d\<in>set (quote_plus s).
           (65 \<le> d \<and> d \<le> 90) \<or> (97 \<le> d \<and> d \<le> 122) \<or> (48 \<le> d \<and> d \<le> 57) \<or>
           d = 95 \<or> d = 46 \<or> d = 45 \<or> d = 126 \<or> d = 37 \<or> d = 43)"
    using quote_plus_alphabet [of s] by (auto simp: always_safe_def)
  from requests sample1 sample2 hdr quote_plus_append [of s t] ascii quote_plus_samples alphabet
  show ?thesis by (intro conjI) (elim conjE, assumption)+
qed

theorem C1_witness:
  "quote_plus [47] = [37, 50, 70]
   \<and> quote_plus [32] = [43]
   \<and> quote_plus [97] = [97]
   \<and> 47 \<notin> set (quote_plus [47, 32, 1092, 97])"
proof -
  have a: "quote_plus [47] = [37, 50, 70]"
    using C1_resolver_requests [THEN conjunct2, THEN conjunct2, THEN conjunct2, THEN conjunct2,
        THEN conjunct2, THEN conjunct2, THEN conjunct2, THEN conjunct1, THEN mp, of 47]
    by simp
  have b: "quote_plus [32] = [43]"
    using C1_resolver_requests [THEN conjunct2, THEN conjunct2, THEN conjunct2, THEN conjunct2,
        THEN conjunct2, THEN conjunct2, THEN conjunct2, THEN conjunct1, THEN mp, of 32]
    by simp
  have c: "quote_plus [97] = [97]"
    using C1_resolver_requests [THEN conjunct2, THEN conjunct2, THEN conjunct2, THEN conjunct2,
        THEN conjunct2, THEN conjunct2, THEN conjunct2, THEN conjunct1, THEN mp, of 97]
    by simp
  have "\<forall>c\<in>set [47, 32, 1092, 97]. c < (1114112::nat)" by simp
  from C1_resolver_requests [THEN conjunct2, THEN conjunct2, THEN conjunct2, THEN conjunct2,
        THEN conjunct2, THEN conjunct2, THEN conjunct2, THEN conjunct2, THEN conjunct2,
        THEN conjunct2, THEN mp, OF this]
  have d: "47 \<notin> set (quote_plus [47, 32, 1092, 97])" by auto
  from a b c d show ?thesis by (intro conjI)
qed

text \<open>
  Claim C6. Both resolvers return the \<open>href\<close> of a response with status 200 and the
  empty string for every other status; the result is an exception exactly when the
  HTTP client raised one.
\<close>

theorem C6_link_or_empty:
  "(\<forall>r h. net (link_request token (blocking_url public_key file_path)) = Inr r
        \<and> status_code r = 200 \<and> href r = Some h \<longrightarrow>
      fst (get_download_link net token public_key file_path w) = Inr h)
   \<and> (\<forall>r. net (link_request token (blocking_url public_key file_path)) = Inr r
        \<and> status_code r \<noteq> 200 \<longrightarrow>
      fst (get_download_link net token public_key file_path w) = Inr [])
   \<and> (\<forall>e. fst (get_download_link net token public_key file_path w) = Inl e \<longleftrightarrow>
      net (link_request token (blocking_url public_key file_path)) = Inl e)
   \<and> (\<forall>r h. net (link_request token (async_url public_key file_path)) = Inr r
        \<and> status_code r = 200 \<and> href r = Some h \<longrightarrow>
      fst (get_download_link_async net token public_key file_path w) = Inr h)
   \<and> (\<forall>r. net (link_request token (async_url public_key file_path)) = Inr r
        \<and> status_code r \<noteq> 200 \<longrightarrow>
      fst (get_download_link_async net token public_key file_path w) = Inr [])
   \<and> (\<forall>e. fst (get_download_link_async net token public_key file_path w) = Inl e \<longleftrightarrow>
      net (link_request token (async_url public_key file_path)) = Inl e)"
  by (auto simp: fst_blocking fst_async split: sum.splits)

theorem C6_witness:
  "fst (get_download_link
          (table_api [(blocking_url (lit ''key'') (lit ''a.txt''), Inr (link_page (lit ''https://dl/a'')))])
          (lit ''t'') (lit ''key'') (lit ''a.txt'') fresh_world) = Inr (lit ''https://dl/a'')
   \<and> fst (get_download_link (table_api []) (lit ''t'') (lit ''key'') (lit ''a.txt'') fresh_world) = Inr []
   \<and> fst (get_download_link
          (table_api [(blocking_url (lit ''key'') (lit ''a.txt''), Inl Transport_error)])
          (lit ''t'') (lit ''key'') (lit ''a.txt'') fresh_world) = Inl Transport_error
   \<and> fst (get_download_link_async
          (table_api [(async_url (lit ''key'') (lit ''a.txt''), Inr (link_page (lit ''https://dl/a'')))])
          (lit ''t'') (lit ''key'') (lit ''a.txt'') fresh_world) = Inr (lit ''https://dl/a'')
   \<and> fst (get_download_link_async (table_api []) (lit ''t'') (lit ''key'') (lit ''a.txt'') fresh_world) = Inr []
   \<and> fst (get_download_link_async
          (table_api [(async_url (lit ''key'') (lit ''a.txt''), Inl Transport_error)])
          (lit ''t'') (lit ''key'') (lit ''a.txt'') fresh_world) = Inl Transport_error"
  using
    C6_link_or_empty [of "table_api [(blocking_url (lit ''key'') (lit ''a.txt''), Inr (link_page (lit ''https://dl/a'')))]"
      "lit ''t''" "lit ''key''" "lit ''a.txt''" fresh_world]
    C6_link_or_empty [of "table_api []" "lit ''t''" "lit ''key''" "lit ''a.txt''" fresh_world]
    C6_link_or_empty [of "table_api [(blocking_url (lit ''key'') (lit ''a.txt''), Inl Transport_error)]"
      "lit ''t''" "lit ''key''" "lit ''a.txt''" fresh_world]
    C6_link_or_empty [of "table_api [(async_url (lit ''key'') (lit ''a.txt''), Inr (link_page (lit ''https://dl/a'')))]"
      "lit ''t''" "lit ''key''" "lit ''a.txt''" fresh_world]
    C6_link_or_empty [of "table_api [(async_url (lit ''key'') (lit ''a.txt''), Inl Transport_error)]"
      "lit ''t''" "lit ''key''" "lit ''a.txt''" fresh_world]
  by (simp add: table_api_def link_request_def link_page_def failed_page_def)


section \<open>The remote archive builder\<close>

text \<open>
  What \<open>writestr\<close> does with a name; one turn of the loop for a path that does not
  end in an exception; and the loop over paths of which none does, or of which one
  does.
\<close>

lemma zip_name_plain: "0 \<notin> set fp \<Longrightarrow> zip_name fp = fp"
  by (induction fp) (auto simp: zip_name_def)

lemma zip_name_cut: "zip_name (a @ 0 # b) = zip_name a"
  by (induction a) (simp_all add: zip_name_def)

lemma takeWhile_plain: "0 \<notin> set fp \<Longrightarrow> takeWhile (\<lambda>c. c \<noteq> (0::nat)) fp = fp"
  using zip_name_plain [of fp] by (simp add: zip_name_def)

lemma length_utf8_ascii: "c < 128 \<Longrightarrow> utf8 c = [c]"
  by (simp add: utf8_def)














lemma entry_of_Some:
  "entry_of net token pk fp = Some (name, data) \<longleftrightarrow>
     name = takeWhile (\<lambda>c. c \<noteq> 0) fp \<and> (\<exists>l r. resolved net token pk fp = Inr l \<and> l \<noteq> [] \<and>
        net (file_request l) = Inr r \<and> status_code r = 200 \<and> content r = data)"
  by (auto simp: entry_of_def fetched_def zip_name_def split: sum.splits if_splits)

















section \<open>The local archive builder\<close>





























section \<open>The multi-file download view: rejections\<close>

text \<open>
  Claim C9. A POST without selected files is answered with status 400 and the world is
  unchanged (no request was sent); any other method is answered with status 405, the
  world unchanged as well.
\<close>

theorem C9_rejections:
  "(request_method request = lit ''POST'' \<and> getlist (POST request) (lit ''files'') = [] \<longrightarrow>
      download_multiple_files net token request public_key w =
        (Inr (HttpResponse no_files_message 400), w))
   \<and> (request_method request \<noteq> lit ''POST'' \<longrightarrow>
      download_multiple_files net token request public_key w =
        (Inr (HttpResponse bad_method_message 405), w))
   \<and> status (HttpResponse no_files_message 400) = 400
   \<and> status (HttpResponse bad_method_message 405) = 405"
  by (simp add: download_multiple_files_def HttpResponse_def)

theorem C9_witness:
  "download_multiple_files (table_api []) (lit ''t'') \<lparr>request_method = lit ''POST'', POST = [(lit ''csrf'', lit ''x'')]\<rparr>
      (lit ''key'') fresh_world = (Inr (HttpResponse no_files_message 400), fresh_world)
   \<and> download_multiple_files (table_api []) (lit ''t'') \<lparr>request_method = lit ''GET'', POST = []\<rparr>
      (lit ''key'') fresh_world = (Inr (HttpResponse bad_method_message 405), fresh_world)"
  using
    C9_rejections [of "\<lparr>request_method = lit ''POST'', POST = [(lit ''csrf'', lit ''x'')]\<rparr>" "table_api []"
      "lit ''t''" "lit ''key''" fresh_world]
    C9_rejections [of "\<lparr>request_method = lit ''GET'', POST = []\<rparr>" "table_api []"
      "lit ''t''" "lit ''key''" fresh_world]
  by (simp add: getlist_def lit_def)

end
